theory Spec2Isabelle
  imports Complex_Main "HOL-Library.Word"
begin

section \<open>Data model of the LED detector node\<close>

text \<open>
  The node \<^verbatim>\<open>LEDDetectorNode\<close> (led_detector_node.py) buffers camera frames for
  \<^verbatim>\<open>capture_time\<close> seconds, stacks them into one array, crops three regions, hands
  each region to the detector and publishes one \<^verbatim>\<open>SignalsDetection\<close> message.

  A finite Python float is the real number it denotes. Time stamps, \<^verbatim>\<open>capture_time\<close>,
  \<^verbatim>\<open>DTOL\<close> and the crop bounds are finite floats; the result of every float operation
  of the node is rounded by the function \<open>float64\<close> below. Pixels are numpy
  \<^verbatim>\<open>uint8\<close> values.
\<close>

type_synonym pixel = "8 word"

text \<open>A 2-D array is the list of its rows; all rows of an array have the same length.\<close>

type_synonym image = "pixel list list"

text \<open>
  The stacked array \<^verbatim>\<open>images\<close> has shape (h, w, num_img): it is indexed by row, then
  column, then frame.
\<close>

type_synonym volume = "pixel list list list"

text \<open>\<^verbatim>\<open>crop_norm\<close> is \<^verbatim>\<open>[[h0, h1], [w0, w1]]\<close>.\<close>

type_synonym crop_norm = "(real \<times> real) \<times> (real \<times> real)"

text \<open>
  The incoming message: its header stamp in seconds and the gray image that
  \<^verbatim>\<open>numpy_from_ros_compressed\<close> and \<^verbatim>\<open>cv2.cvtColor\<close> (library calls outside the
  node) decode from it, or \<open>None\<close> when one of the two raises.
\<close>

record message =
  stamp :: real
  gray :: "image option"

text \<open>An entry of \<^verbatim>\<open>self.data\<close>: \<^verbatim>\<open>{'timestamp': float_time, 'rgb': rgb}\<close>.\<close>

record frame =
  timestamp :: real
  rgb :: image

record crop_parameters =
  cropNormalizedRight :: crop_norm
  cropNormalizedFront :: crop_norm
  cropNormalizedTL :: crop_norm

text \<open>Modelled from the spec: the protocol table (section 3, ProtocolEntry) is read only by
  the detector class, which is not among the sources; an entry is an expected frequency
  in Hz, a tolerance in Hz and a symbol.
\<close>

record protocol_entry =
  frequency :: real
  tolerance :: real
  symbol :: string

text \<open>The entries of \<^verbatim>\<open>self.parameters\<close> that the node itself reads, and the protocol table.\<close>

record parameters =
  capture_time :: real
  DTOL :: real
  verbose :: int
  crop_params :: crop_parameters
  LED_protocol :: "protocol_entry list"

text \<open>The exceptions that a call of the node can raise.\<close>

datatype error = IndexError | ValueError | TypeError | OverflowError | CvError

text \<open>Modelled from the spec: the collaborators of the node that are not among the sources,
  and the float arithmetic of the interpreter.
  \<^item> The class \<^verbatim>\<open>LEDDetector\<close> (led_detection/LED_detector.py): \<^verbatim>\<open>find_blobs\<close>,
    \<^verbatim>\<open>interpret_signal\<close> and \<^verbatim>\<open>get_keypoints\<close> are taken as functions of their
    arguments (section 4.3: the extractor is deterministic for a fixed frame and a
    fixed configuration); \<open>'b\<close> is the type of the blobs and \<open>'k\<close> that of the
    keypoints. \<^verbatim>\<open>find_blobs\<close> also returns a frame that the node never reads.
  \<^item> The library calls of the debug images, \<^verbatim>\<open>cv2.drawKeypoints\<close> and
    \<^verbatim>\<open>cv2_to_compressed_imgmsg\<close>, which return an image of type \<open>'i\<close>, or
    \<open>None\<close> when they raise (a \<^verbatim>\<open>cv2.error\<close> or a \<^verbatim>\<open>CvBridgeError\<close>, here CvError).
  \<^item> The float64 arithmetic of Python: \<open>float64 x\<close> is the float nearest to the real
    \<open>x\<close>, and \<open>overflows x\<close> says that \<open>x\<close> is too large and rounds to an infinity.
\<close>

record ('b, 'k, 'i) externals =
  find_blobs :: "volume \<Rightarrow> string \<Rightarrow> 'b"
  interpret_signal :: "'b \<Rightarrow> real \<Rightarrow> nat \<Rightarrow> string"
  get_keypoints :: "'b \<Rightarrow> real \<Rightarrow> 'k"
  drawKeypoints :: "image \<Rightarrow> 'k \<Rightarrow> 'i option"
  cv2_to_compressed_imgmsg :: "'i \<Rightarrow> 'i option"
  float64 :: "real \<Rightarrow> real"
  overflows :: "real \<Rightarrow> bool"

text \<open>
  The float result of an operation whose exact result is \<open>x\<close>. Zero is a float, so an
  exact zero stays zero (\<^verbatim>\<open>x - x\<close> is \<^verbatim>\<open>0.0\<close>). The differences of header stamps, the
  quotient of \<^verbatim>\<open>capture_time\<close> by a frame count and the half of \<^verbatim>\<open>DTOL\<close> are not
  larger than their operands and never overflow; the products of \<^verbatim>\<open>crop_image\<close> can.
\<close>

definition rounded :: "('b, 'k, 'i) externals \<Rightarrow> real \<Rightarrow> real" where
  "rounded ext x = (if x = 0 then 0 else float64 ext x)"

text \<open>
  The attributes of the node. \<open>subscribed\<close> says whether \<^verbatim>\<open>self.sub_cam\<close> is
  registered: \<^verbatim>\<open>unregister()\<close> clears it and the new \<^verbatim>\<open>DTSubscriber\<close> at the end of
  \<^verbatim>\<open>process_and_publish\<close> sets it.
\<close>

record state =
  first_timestamp :: real
  capture_finished :: bool
  t_init :: "real option"
  trigger :: bool
  node_state :: nat
  data :: "frame list"
  right :: "string option"
  front :: "string option"
  traffic_light :: "string option"
  left :: string
  subscribed :: bool
  parameters :: parameters

text \<open>The message \<^verbatim>\<open>SignalsDetection(front, right, left, traffic_light_state)\<close>.\<close>

record signals_detection =
  sd_front :: "string option"
  sd_right :: "string option"
  sd_left :: string
  sd_traffic_light_state :: "string option"

text \<open>The state that \<^verbatim>\<open>__init__\<close> leaves, for given parameters.\<close>

definition init :: "parameters \<Rightarrow> state" where
  "init ps =
     \<lparr>first_timestamp = 0, capture_finished = True, t_init = None, trigger = True,
      node_state = 0, data = [], right = None, front = None, traffic_light = None,
      left = ''UNKNOWN'', subscribed = True, parameters = ps\<rparr>"

section \<open>Cropping\<close>

text \<open>
  A Python slice bound on an axis of length \<open>n\<close>: a negative bound counts from the end,
  and the result is clamped to \<open>0..n\<close>.
\<close>

definition slice_index :: "nat \<Rightarrow> int \<Rightarrow> nat" where
  "slice_index n i = (if i < 0 then nat (max 0 (int n + i)) else min n (nat i))"

text \<open>\<^verbatim>\<open>xs[start:stop]\<close>; it is empty when the clamped bounds are inverted.\<close>

definition slice :: "int \<Rightarrow> int \<Rightarrow> 'a list \<Rightarrow> 'a list" where
  "slice start stop xs =
     (let a = slice_index (length xs) start; b = slice_index (length xs) stop
      in take (b - a) (drop a xs))"

text \<open>
  \<^verbatim>\<open>images.shape\<close>: the number of rows and the length of a row. A list of rows does
  not record the width of an array without rows; no column is read from such an array.
\<close>

definition height_of :: "'a list list \<Rightarrow> nat" where
  "height_of a = length a"

definition width_of :: "'a list list \<Rightarrow> nat" where
  "width_of a = (case a of [] \<Rightarrow> 0 | r # _ \<Rightarrow> length r)"

text \<open>
  \<^verbatim>\<open>int(np.floor(n * c))\<close> and \<^verbatim>\<open>int(np.ceil(n * c))\<close>: the product is a float; \<^verbatim>\<open>int\<close>
  raises OverflowError on an infinity.
\<close>

definition floor_index :: "('b, 'k, 'i) externals \<Rightarrow> nat \<Rightarrow> real \<Rightarrow> error + int" where
  "floor_index ext n c =
     (if overflows ext (real n * c) then Inl OverflowError else Inr \<lfloor>rounded ext (real n * c)\<rfloor>)"

definition ceil_index :: "('b, 'k, 'i) externals \<Rightarrow> nat \<Rightarrow> real \<Rightarrow> error + int" where
  "ceil_index ext n c =
     (if overflows ext (real n * c) then Inl OverflowError else Inr \<lceil>rounded ext (real n * c)\<rceil>)"

text \<open>
  \<^verbatim>\<open>crop_image\<close>: the four indices are computed in the order of the source, and the
  third axis is kept whole (\<^verbatim>\<open>images[h_start:h_end, w_start:w_end, :]\<close>).
\<close>

definition crop_image :: "('b, 'k, 'i) externals \<Rightarrow> volume \<Rightarrow> crop_norm \<Rightarrow> error + volume" where
  "crop_image ext images crop_norm =
     (let height = height_of images; width = width_of images
      in case floor_index ext height (fst (fst crop_norm)) of Inl e \<Rightarrow> Inl e | Inr h_start \<Rightarrow>
         (case ceil_index ext height (snd (fst crop_norm)) of Inl e \<Rightarrow> Inl e | Inr h_end \<Rightarrow>
         (case floor_index ext width (fst (snd crop_norm)) of Inl e \<Rightarrow> Inl e | Inr w_start \<Rightarrow>
         (case ceil_index ext width (snd (snd crop_norm)) of Inl e \<Rightarrow> Inl e | Inr w_end \<Rightarrow>
           Inr (map (slice w_start w_end) (slice h_start h_end images))))))"

section \<open>Processing a window\<close>

text \<open>
  \<^verbatim>\<open>images[:, :, i] = v['rgb']\<close> assigns by numpy's broadcasting: each axis of the
  frame has the length of the target axis or length 1, otherwise ValueError is raised.
\<close>

definition broadcastable :: "nat \<Rightarrow> nat \<Rightarrow> image \<Rightarrow> bool" where
  "broadcastable h w img \<longleftrightarrow>
     (height_of img = h \<or> height_of img = 1) \<and> (width_of img = w \<or> width_of img = 1)"

definition pixel_at :: "nat \<Rightarrow> nat \<Rightarrow> image \<Rightarrow> nat \<Rightarrow> nat \<Rightarrow> pixel" where
  "pixel_at h w img r c =
     img ! (if height_of img = h then r else 0) ! (if width_of img = w then c else 0)"

definition stack :: "nat \<Rightarrow> nat \<Rightarrow> frame list \<Rightarrow> volume" where
  "stack h w fs =
     map (\<lambda>r. map (\<lambda>c. map (\<lambda>v. pixel_at h w (rgb v) r c) fs) [0..<w]) [0..<h]"

text \<open>\<^verbatim>\<open>img[:, :, -1]\<close>, the last frame of a cropped array.\<close>

definition last_frame :: "volume \<Rightarrow> image" where
  "last_frame img = map (map last) img"

text \<open>The detection message that \<^verbatim>\<open>publish\<close> builds from the attributes.\<close>

definition detections_msg :: "state \<Rightarrow> signals_detection" where
  "detections_msg s =
     \<lparr>sd_front = front s, sd_right = right s, sd_left = left s,
      sd_traffic_light_state = traffic_light s\<rparr>"

text \<open>
  \<^verbatim>\<open>publish\<close>: with \<^verbatim>\<open>verbose > 0\<close> the three debug images are converted first, and a
  conversion that raises leaves the method before the detection message is sent. The
  debug images go to topics of their own; the result is the message sent on
  \<^verbatim>\<open>~signals_detection\<close>.
\<close>

definition publish ::
  "('b, 'k, 'i) externals \<Rightarrow> state \<Rightarrow> ('i \<times> 'i \<times> 'i) option \<Rightarrow> error + signals_detection" where
  "publish ext s img_pub =
     (if 0 < verbose (parameters s)
      then (case img_pub of
              None \<Rightarrow> Inl CvError
            | Some (img_right, img_front, img_tl) \<Rightarrow>
                (case cv2_to_compressed_imgmsg ext img_right of None \<Rightarrow> Inl CvError | Some m_right \<Rightarrow>
                 (case cv2_to_compressed_imgmsg ext img_front of None \<Rightarrow> Inl CvError | Some m_front \<Rightarrow>
                 (case cv2_to_compressed_imgmsg ext img_tl of None \<Rightarrow> Inl CvError | Some m_tl \<Rightarrow>
                   Inr (detections_msg s)))))
      else Inr (detections_msg s))"

text \<open>
  A call either raises, leaving the node in the state reached so far, or returns the
  new state and the messages published on \<^verbatim>\<open>~signals_detection\<close>.
\<close>

type_synonym outcome = "(error \<times> state) + (state \<times> signals_detection list)"

definition final_state :: "outcome \<Rightarrow> state" where
  "final_state r = (case r of Inl (e, s) \<Rightarrow> s | Inr (s, out) \<Rightarrow> s)"

text \<open>
  \<^verbatim>\<open>process_and_publish\<close>. \<^verbatim>\<open>self.data[0]\<close> raises IndexError on an empty buffer, the
  stacking loop raises ValueError on a frame of another shape, a crop raises when a
  product is infinite, the drawing of the debug images (\<^verbatim>\<open>verbose > 0\<close>) can raise,
  \<^verbatim>\<open>rospy.Time.now().to_sec() - self.t_init\<close> raises TypeError while \<^verbatim>\<open>t_init\<close> is
  \<^verbatim>\<open>None\<close>, and \<^verbatim>\<open>publish\<close> can raise. The log lines and the clock readings that only
  feed them are left out.
\<close>

definition process_and_publish :: "('b, 'k, 'i) externals \<Rightarrow> state \<Rightarrow> outcome" where
  "process_and_publish ext s =
     (case data s of
        [] \<Rightarrow> Inl (IndexError, s)
      | v0 # _ \<Rightarrow>
          (let h = height_of (rgb v0); w = width_of (rgb v0);
               num_img = length (data s)
           in if \<not> list_all (\<lambda>v. broadcastable h w (rgb v)) (data s)
              then Inl (ValueError, s)
              else
                (let images = stack h w (data s);
                     cp = crop_params (parameters s)
                 in case crop_image ext images (cropNormalizedRight cp) of Inl e \<Rightarrow> Inl (e, s) | Inr img_right \<Rightarrow>
                    (case crop_image ext images (cropNormalizedFront cp) of Inl e \<Rightarrow> Inl (e, s) | Inr img_front \<Rightarrow>
                    (case crop_image ext images (cropNormalizedTL cp) of Inl e \<Rightarrow> Inl (e, s) | Inr img_tl \<Rightarrow>
                   (let blobs_right = find_blobs ext img_right ''car'';
                        blobs_front = find_blobs ext img_front ''car'';
                        blobs_tl = find_blobs ext img_tl ''tl'';
                        radius = rounded ext (DTOL (parameters s) / 2)
                    in case
                         (if 0 < verbose (parameters s)
                          then (case drawKeypoints ext (last_frame img_right)
                                       (get_keypoints ext blobs_right radius) of None \<Rightarrow> Inl CvError | Some p_right \<Rightarrow>
                                (case drawKeypoints ext (last_frame img_front)
                                       (get_keypoints ext blobs_front radius) of None \<Rightarrow> Inl CvError | Some p_front \<Rightarrow>
                                (case drawKeypoints ext (last_frame img_tl)
                                       (get_keypoints ext blobs_tl radius) of None \<Rightarrow> Inl CvError | Some p_tl \<Rightarrow>
                                  Inr (Some (p_right, p_front, p_tl)))))
                          else Inr None)
                       of Inl e \<Rightarrow> Inl (e, s)
                        | Inr img_pub \<Rightarrow>
                           (let s1 = s\<lparr>right := None, front := None, traffic_light := None\<rparr>;
                                t_s = rounded ext (capture_time (parameters s) / real num_img);
                                s2 = s1\<lparr>right := Some (interpret_signal ext blobs_right t_s num_img),
                                        front := Some (interpret_signal ext blobs_front t_s num_img),
                                        traffic_light := Some (interpret_signal ext blobs_tl t_s num_img)\<rparr>;
                                s3 = s2\<lparr>left := ''UNKNOWN''\<rparr>
                            in case t_init s3 of
                                 None \<Rightarrow> Inl (TypeError, s3)
                               | Some t0 \<Rightarrow>
                                   (case publish ext s3 img_pub of
                                      Inl e \<Rightarrow> Inl (e, s3)
                                    | Inr d \<Rightarrow> Inr (s3\<lparr>trigger := True, subscribed := True\<rparr>, [d])))))))))"

section \<open>The camera callback\<close>

text \<open>
  The lines "Capture image": decode, convert to gray, invert (\<^verbatim>\<open>rgb = 255 - rgb\<close>) and
  build the buffer entry. Decoding can raise.
\<close>

definition capture :: "message \<Rightarrow> error + frame" where
  "capture m =
     (case gray m of
        None \<Rightarrow> Inl CvError
      | Some g \<Rightarrow> Inr \<lparr>timestamp = stamp m, rgb = map (map (\<lambda>p. 255 - p)) g\<rparr>)"

text \<open>
  The first \<^verbatim>\<open>if\<close>/\<^verbatim>\<open>elif\<close> of \<^verbatim>\<open>camera_callback\<close>; \<open>now\<close> is the reading of
  \<^verbatim>\<open>rospy.Time.now()\<close>.
\<close>

definition arm :: "state \<Rightarrow> message \<Rightarrow> real \<Rightarrow> state" where
  "arm s m now =
     (if trigger s
      then s\<lparr>trigger := False, data := [], capture_finished := False,
             first_timestamp := stamp m, t_init := Some now\<rparr>
      else if capture_finished s then s\<lparr>node_state := 0\<rparr>
      else s)"

text \<open>The assignments of the branch "Start processing", up to \<^verbatim>\<open>self.sub_cam.unregister()\<close>.\<close>

definition begin_processing :: "state \<Rightarrow> state" where
  "begin_processing s =
     s\<lparr>node_state := 2, capture_finished := True, first_timestamp := 0, subscribed := False\<rparr>"

text \<open>
  \<^verbatim>\<open>camera_callback\<close>. In the capturing branch \<^verbatim>\<open>node_state\<close> is set before the image
  is decoded, so a decoding error leaves the window armed and the frame not buffered.
\<close>

definition camera_callback ::
  "('b, 'k, 'i) externals \<Rightarrow> state \<Rightarrow> message \<Rightarrow> real \<Rightarrow> outcome" where
  "camera_callback ext s m now =
     (let float_time = stamp m; s1 = arm s m now
      in if 0 < first_timestamp s1
         then
           (let rel_time = rounded ext (float_time - first_timestamp s1)
            in if rel_time < capture_time (parameters s1)
               then (case capture m of
                       Inl e \<Rightarrow> Inl (e, s1\<lparr>node_state := 1\<rparr>)
                     | Inr v \<Rightarrow> Inr (s1\<lparr>node_state := 1, data := data s1 @ [v]\<rparr>, []))
               else if \<not> capture_finished s1 \<and> 0 < first_timestamp s1
               then process_and_publish ext (begin_processing s1)
               else Inr (s1, []))
         else Inr (s1, []))"

section \<open>The frame source\<close>

text \<open>
  The middleware hands a frame to the callback only while the subscription is
  registered; otherwise the frame is lost. An exception leaves the callback with the
  subscription as it is. The log holds what came out of each delivery: an exception or
  a published message.
\<close>

type_synonym event = "message \<times> real"

definition deliver ::
  "('b, 'k, 'i) externals \<Rightarrow> state \<Rightarrow> event \<Rightarrow> state \<times> (error + signals_detection) list" where
  "deliver ext s ev =
     (if subscribed s
      then (case camera_callback ext s (fst ev) (snd ev) of
              Inl (e, s') \<Rightarrow> (s', [Inl e])
            | Inr (s', out) \<Rightarrow> (s', map Inr out))
      else (s, []))"

fun run ::
  "('b, 'k, 'i) externals \<Rightarrow> state \<Rightarrow> event list \<Rightarrow> state \<times> (error + signals_detection) list" where
  "run ext s [] = (s, [])"
| "run ext s (ev # evs) =
     (let (s1, o1) = deliver ext s ev; (s2, o2) = run ext s1 evs in (s2, o1 @ o2))"

section \<open>The classifier of the specification\<close>

text \<open>Modelled from the spec: the highest configured protocol frequency of section 4.4 (0 for an empty table).\<close>

definition highest_frequency :: "protocol_entry list \<Rightarrow> real" where
  "highest_frequency table = foldr max (map frequency table) 0"

text \<open>Modelled from the spec: \<^verbatim>\<open>LEDDetector.interpret_signal\<close> is not among the sources.
  Section 4.1: with fewer than 2 frames the classifier reports "unknown" (insufficient
  samples). Section 4.4, numeric semantics: the number of captured frames must exceed
  2 times the highest protocol frequency times \<^verbatim>\<open>capture_time\<close>; if violated, the
  classification is forced to "unknown". Otherwise the result is that of steps 1 to 5
  (track association, spectrum, matching, aggregation), a floating-point computation
  that is taken as the parameter \<open>classify\<close>.
\<close>

definition spec_interpret_signal ::
  "parameters \<Rightarrow> ('b \<Rightarrow> real \<Rightarrow> nat \<Rightarrow> string) \<Rightarrow> 'b \<Rightarrow> real \<Rightarrow> nat \<Rightarrow> string" where
  "spec_interpret_signal ps classify blobs t_s num_img =
     (if num_img < 2 then ''UNKNOWN''
      else if \<not> (2 * highest_frequency (LED_protocol ps) * capture_time ps < real num_img)
      then ''UNKNOWN''
      else classify blobs t_s num_img)"

text \<open>Modelled from the spec: the externals \<open>ext\<close> with the classifier above in place of theirs.\<close>

definition spec_detector ::
  "parameters \<Rightarrow> ('b, 'k, 'i) externals \<Rightarrow> ('b \<Rightarrow> real \<Rightarrow> nat \<Rightarrow> string) \<Rightarrow> ('b, 'k, 'i) externals" where
  "spec_detector ps ext classify = ext\<lparr>interpret_signal := spec_interpret_signal ps classify\<rparr>"

section \<open>Notions used in the statements\<close>

text \<open>What a call published, and the exception it raised, if any.\<close>

definition published :: "outcome \<Rightarrow> signals_detection list" where
  "published r = (case r of Inl (e, s) \<Rightarrow> [] | Inr (s, out) \<Rightarrow> out)"

definition raised :: "outcome \<Rightarrow> error option" where
  "raised r = (case r of Inl (e, s) \<Rightarrow> Some e | Inr (s, out) \<Rightarrow> None)"

text \<open>The frames that a message adds to the buffer when it is captured: one, or none when decoding raises.\<close>

definition captured :: "message \<Rightarrow> frame list" where
  "captured m = (case capture m of Inl e \<Rightarrow> [] | Inr v \<Rightarrow> [v])"

text \<open>The array \<^verbatim>\<open>images\<close> that \<^verbatim>\<open>process_and_publish\<close> builds from the buffer.\<close>

definition window_volume :: "state \<Rightarrow> volume" where
  "window_volume s =
     (case data s of [] \<Rightarrow> []
      | v0 # _ \<Rightarrow> stack (height_of (rgb v0)) (width_of (rgb v0)) (data s))"

text \<open>The buffer is not empty and every frame can be assigned into the array of the first frame's shape.\<close>

definition stackable :: "frame list \<Rightarrow> bool" where
  "stackable fs =
     (case fs of [] \<Rightarrow> False
      | v0 # _ \<Rightarrow> list_all (\<lambda>v. broadcastable (height_of (rgb v0)) (width_of (rgb v0)) (rgb v)) fs)"

text \<open>The three cropped arrays (right, front, traffic light), or the first exception of a crop.\<close>

definition crops :: "('b, 'k, 'i) externals \<Rightarrow> state \<Rightarrow> error + volume \<times> volume \<times> volume" where
  "crops ext s =
     (case crop_image ext (window_volume s) (cropNormalizedRight (crop_params (parameters s))) of
        Inl e \<Rightarrow> Inl e | Inr img_right \<Rightarrow>
      (case crop_image ext (window_volume s) (cropNormalizedFront (crop_params (parameters s))) of
        Inl e \<Rightarrow> Inl e | Inr img_front \<Rightarrow>
      (case crop_image ext (window_volume s) (cropNormalizedTL (crop_params (parameters s))) of
        Inl e \<Rightarrow> Inl e | Inr img_tl \<Rightarrow> Inr (img_right, img_front, img_tl))))"

text \<open>The sampling time and the symbol that \<^verbatim>\<open>process_and_publish\<close> computes for a cropped region.\<close>

definition sampling_time :: "('b, 'k, 'i) externals \<Rightarrow> state \<Rightarrow> real" where
  "sampling_time ext s = rounded ext (capture_time (parameters s) / real (length (data s)))"

definition region_signal :: "('b, 'k, 'i) externals \<Rightarrow> state \<Rightarrow> volume \<Rightarrow> string \<Rightarrow> string" where
  "region_signal ext s img kind =
     interpret_signal ext (find_blobs ext img kind) (sampling_time ext s) (length (data s))"

text \<open>The node after the four results are assigned.\<close>

definition classified :: "('b, 'k, 'i) externals \<Rightarrow> state \<Rightarrow> volume \<times> volume \<times> volume \<Rightarrow> state" where
  "classified ext s c =
     s\<lparr>right := Some (region_signal ext s (fst c) ''car''),
       front := Some (region_signal ext s (fst (snd c)) ''car''),
       traffic_light := Some (region_signal ext s (snd (snd c)) ''tl''),
       left := ''UNKNOWN''\<rparr>"

text \<open>The debug images drawn with \<^verbatim>\<open>verbose > 0\<close>, or the exception of the first drawing that raises.\<close>

definition debug_image :: "('b, 'k, 'i) externals \<Rightarrow> state \<Rightarrow> volume \<Rightarrow> string \<Rightarrow> 'i option" where
  "debug_image ext s img kind =
     drawKeypoints ext (last_frame img)
       (get_keypoints ext (find_blobs ext img kind) (rounded ext (DTOL (parameters s) / 2)))"

definition debug_images ::
  "('b, 'k, 'i) externals \<Rightarrow> state \<Rightarrow> volume \<times> volume \<times> volume \<Rightarrow> error + ('i \<times> 'i \<times> 'i) option" where
  "debug_images ext s c =
     (if 0 < verbose (parameters s)
      then (case debug_image ext s (fst c) ''car'' of None \<Rightarrow> Inl CvError | Some p_right \<Rightarrow>
            (case debug_image ext s (fst (snd c)) ''car'' of None \<Rightarrow> Inl CvError | Some p_front \<Rightarrow>
            (case debug_image ext s (snd (snd c)) ''tl'' of None \<Rightarrow> Inl CvError | Some p_tl \<Rightarrow>
              Inr (Some (p_right, p_front, p_tl)))))
      else Inr None)"

text \<open>
  A capture window is open: a capture is running and \<^verbatim>\<open>first_timestamp\<close> holds its
  start (the value 0 is what the node stores while no window is open).
\<close>

definition window_open :: "state \<Rightarrow> bool" where
  "window_open s \<longleftrightarrow> \<not> capture_finished s \<and> 0 < first_timestamp s"

text \<open>
  The invariant of the callback: a node that still receives frames is armed for a new
  window, or has an open window that holds at least one frame.
\<close>

definition accepting :: "state \<Rightarrow> bool" where
  "accepting s \<longleftrightarrow> \<not> subscribed s \<or> trigger s \<or> (window_open s \<and> data s \<noteq> [])"

text \<open>The message in which the three classified regions and the left field are "UNKNOWN".\<close>

definition unknown_detection :: signals_detection where
  "unknown_detection =
     \<lparr>sd_front = Some ''UNKNOWN'', sd_right = Some ''UNKNOWN'', sd_left = ''UNKNOWN'',
      sd_traffic_light_state = Some ''UNKNOWN''\<rparr>"

subsection \<open>Concrete inputs\<close>

text \<open>The numbers of these inputs are dyadic and small: float64 represents them and the results of the node's operations on them exactly.\<close>

definition example_parameters :: parameters where
  "example_parameters =
     \<lparr>capture_time = 1, DTOL = 10, verbose = 0,
      crop_params = \<lparr>cropNormalizedRight = ((0, 1), (1 / 2, 1)),
                      cropNormalizedFront = ((0, 1), (0, 1)),
                      cropNormalizedTL = ((0, 1 / 2), (0, 1))\<rparr>,
      LED_protocol = [\<lparr>frequency = 8, tolerance = 1, symbol = ''SYMBOL_A''\<rparr>]\<rparr>"

definition example_message :: "real \<Rightarrow> message" where
  "example_message t = \<lparr>stamp = t, gray = Some [[0, 255], [10, 20]]\<rparr>"

text \<open>A message whose image cannot be decoded.\<close>

definition broken_message :: "real \<Rightarrow> message" where
  "broken_message t = \<lparr>stamp = t, gray = None\<rparr>"

definition example_frame :: "real \<Rightarrow> frame" where
  "example_frame t = \<lparr>timestamp = t, rgb = [[255, 0], [245, 235]]\<rparr>"

text \<open>
  Externals whose detector returns the cropped array as its blobs and reads the
  sampling time only, whose library calls succeed, and whose arithmetic is exact.
\<close>

definition example_detector :: "(volume, unit, unit) externals" where
  "example_detector =
     \<lparr>find_blobs = (\<lambda>v kind. v),
      interpret_signal = (\<lambda>blobs t_s num_img. if t_s = 1 / 2 then ''CAR_SIGNAL_A'' else ''NO_SIGNAL''),
      get_keypoints = (\<lambda>blobs radius. ()),
      drawKeypoints = (\<lambda>img keypoints. Some ()),
      cv2_to_compressed_imgmsg = (\<lambda>img. Some img),
      float64 = (\<lambda>x. x),
      overflows = (\<lambda>x. False)\<rparr>"

text \<open>A node that has buffered the frames stamped 1 and 1.5 of a window of one second.\<close>

definition example_capturing :: state where
  "example_capturing =
     (init example_parameters)
       \<lparr>first_timestamp := 1, capture_finished := False, t_init := Some 1, trigger := False,
        node_state := 1, data := [example_frame 1, example_frame (3 / 2)]\<rparr>"

section \<open>Slices\<close>

lemma drop_as_nth: "drop i xs = map (nth xs) [i..<length xs]"
  by (rule nth_equalityI) auto

lemma take_upt_min: "take m [i..<n] = [i..<min (i + m) n]"
  by (rule nth_equalityI) auto

lemma slice_index_le: "slice_index n i \<le> n"
  by (auto simp: slice_index_def)

text \<open>A slice reads the indices between its clamped bounds.\<close>

lemma slice_as_nth:
  "slice a b xs = map (nth xs) [slice_index (length xs) a..<slice_index (length xs) b]"
proof -
  let ?n = "length xs"
  let ?a = "slice_index ?n a" and ?b = "slice_index ?n b"
  have "slice a b xs = map (nth xs) (take (?b - ?a) [?a..<?n])"
    by (simp add: slice_def Let_def drop_as_nth take_map)
  also have "take (?b - ?a) [?a..<?n] = [?a..<?b]"
    using slice_index_le [of ?n b] by (cases "?a \<le> ?b") (auto simp: take_upt_min min_def)
  finally show ?thesis .
qed

text \<open>Without an infinite product, \<^verbatim>\<open>crop_image\<close> returns the slice at the floors and ceilings of the float products.\<close>

lemma crop_image_finite:
  assumes "\<not> overflows ext (real (height_of images) * h0)"
    and "\<not> overflows ext (real (height_of images) * h1)"
    and "\<not> overflows ext (real (width_of images) * w0)"
    and "\<not> overflows ext (real (width_of images) * w1)"
  shows "crop_image ext images ((h0, h1), (w0, w1)) =
           Inr (map (slice \<lfloor>rounded ext (real (width_of images) * w0)\<rfloor>
                           \<lceil>rounded ext (real (width_of images) * w1)\<rceil>)
                  (slice \<lfloor>rounded ext (real (height_of images) * h0)\<rfloor>
                         \<lceil>rounded ext (real (height_of images) * h1)\<rceil> images))"
  using assms by (simp add: crop_image_def floor_index_def ceil_index_def Let_def)

lemma sliced_rows:
  assumes rect: "\<forall>row \<in> set images. length row = W"
  shows "map (slice ws we) (slice hs he images) =
           map (\<lambda>r. map (\<lambda>c. images ! r ! c) [slice_index W ws..<slice_index W we])
               [slice_index (length images) hs..<slice_index (length images) he]"
proof -
  let ?H = "length images"
  have cols: "slice ws we (images ! i) = map (nth (images ! i)) [slice_index W ws..<slice_index W we]"
    if "i < ?H" for i
  proof -
    have "length (images ! i) = W"
      using that rect by simp
    then show ?thesis
      using slice_as_nth [of ws we "images ! i"] by simp
  qed
  have "map (slice ws we) (slice hs he images) =
          map (\<lambda>i. slice ws we (images ! i)) [slice_index ?H hs..<slice_index ?H he]"
    by (simp add: slice_as_nth)
  also have "\<dots> = map (\<lambda>i. map (nth (images ! i)) [slice_index W ws..<slice_index W we])
                     [slice_index ?H hs..<slice_index ?H he]"
    using slice_index_le [of ?H he] by (intro map_cong refl cols) auto
  finally show ?thesis .
qed

lemma slice_index_in_range: "0 \<le> x \<Longrightarrow> x \<le> real n \<Longrightarrow> slice_index n \<lfloor>x\<rfloor> = nat \<lfloor>x\<rfloor>"
  "0 \<le> x \<Longrightarrow> x \<le> real n \<Longrightarrow> slice_index n \<lceil>x\<rceil> = nat \<lceil>x\<rceil>"
proof -
  assume x: "0 \<le> x" "x \<le> real n"
  have "0 \<le> \<lfloor>x\<rfloor>" "\<lfloor>x\<rfloor> \<le> int n" "0 \<le> \<lceil>x\<rceil>" "\<lceil>x\<rceil> \<le> int n"
    using x by (simp_all add: floor_le_iff ceiling_le_iff ceiling_mono [of 0, simplified])
  then show "slice_index n \<lfloor>x\<rfloor> = nat \<lfloor>x\<rfloor>" "slice_index n \<lceil>x\<rceil> = nat \<lceil>x\<rceil>"
    by (simp_all add: slice_index_def)
qed

text \<open>
  A rounding that is monotone and leaves 0 and the integer \<open>n\<close> unchanged, as rounding to
  the nearest float64 does for every image size, keeps the product of \<open>n\<close> and a
  normalised bound within the image.
\<close>

lemma normalised_product_in_range:
  assumes mono: "\<And>x y. x \<le> y \<Longrightarrow> float64 ext x \<le> float64 ext y"
    and fixed: "float64 ext 0 = 0" "float64 ext (real n) = real n"
    and c: "0 \<le> c" "c \<le> 1"
  shows "0 \<le> rounded ext (real n * c) \<and> rounded ext (real n * c) \<le> real n"
proof -
  have "0 \<le> real n * c" "real n * c \<le> real n"
    using c by (simp_all add: mult_left_le)
  then have "float64 ext 0 \<le> float64 ext (real n * c)" "float64 ext (real n * c) \<le> float64 ext (real n)"
    by (simp_all add: mono)
  then show ?thesis
    by (simp add: rounded_def fixed)
qed

text \<open>
  C6. For a stacked volume of height \<open>H\<close> and width \<open>W\<close> and a region with box
  \<open>[[h0, h1], [w0, w1]]\<close>, let \<open>H * h0\<close>, \<open>H * h1\<close>, \<open>W * w0\<close>, \<open>W * w1\<close> be the float
  products that \<^verbatim>\<open>crop_image\<close> computes. When they lie within the image (as they do for a
  normalised box, by the lemma above), \<^verbatim>\<open>crop_image\<close> returns the rows \<open>\<lfloor>H * h0\<rfloor> \<le> r < \<lceil>H * h1\<rceil>\<close> and of each the
  columns \<open>\<lfloor>W * w0\<rfloor> \<le> c < \<lceil>W * w1\<rceil>\<close>; the entry at \<open>(r, c)\<close> is the whole vector
  \<open>images ! r ! c\<close> of all frames.
\<close>

theorem crop_image_is_slice:
  assumes rect: "\<forall>row \<in> set images. length row = W"
    and shape: "height_of images = H" "width_of images = W"
    and finite: "\<not> overflows ext (real H * h0)" "\<not> overflows ext (real H * h1)"
      "\<not> overflows ext (real W * w0)" "\<not> overflows ext (real W * w1)"
    and h: "0 \<le> rounded ext (real H * h0)" "rounded ext (real H * h0) \<le> real H"
      "0 \<le> rounded ext (real H * h1)" "rounded ext (real H * h1) \<le> real H"
    and w: "0 \<le> rounded ext (real W * w0)" "rounded ext (real W * w0) \<le> real W"
      "0 \<le> rounded ext (real W * w1)" "rounded ext (real W * w1) \<le> real W"
  shows "crop_image ext images ((h0, h1), (w0, w1)) =
           Inr (map (\<lambda>r. map (\<lambda>c. images ! r ! c)
                       [nat \<lfloor>rounded ext (real W * w0)\<rfloor>..<nat \<lceil>rounded ext (real W * w1)\<rceil>])
                  [nat \<lfloor>rounded ext (real H * h0)\<rfloor>..<nat \<lceil>rounded ext (real H * h1)\<rceil>])"
proof -
  have H: "length images = H"
    using shape(1) by (simp add: height_of_def)
  show ?thesis
    using crop_image_finite [of ext images h0 h1 w0 w1] finite sliced_rows [OF rect]
    by (simp add: shape H slice_index_in_range h w)
qed

theorem crop_image_is_slice_witness:
  "list_all (\<lambda>row. length row = 4)
     [[[1, 2], [3, 4], [5, 6], [7, 8]], [[9, 10], [11, 12], [13, 14], [15, 16 :: pixel]]] \<and>
   crop_image example_detector
     [[[1, 2], [3, 4], [5, 6], [7, 8]], [[9, 10], [11, 12], [13, 14], [15, 16]]]
     ((1 / 2, 1), (1 / 4, 3 / 4)) = Inr [[[11, 12], [13, 14]]]"
  using crop_image_is_slice
    [of "[[[1, 2], [3, 4], [5, 6], [7, 8]], [[9, 10], [11, 12], [13, 14], [15, 16]]]"
        4 2 example_detector "1 / 2" 1 "1 / 4" "3 / 4"]
  by (simp add: height_of_def width_of_def example_detector_def rounded_def eval_nat_numeral)

text \<open>
  C2 (as amended). \<^verbatim>\<open>crop_image\<close> reports no configuration error. For every region,
  also one whose bounds are inverted or outside the image, whose four float products
  are finite, it raises nothing and returns the rows and columns between the bounds as
  a Python slice clamps them to the image (a negative bound counts from the end), which
  is no row or no column when the clamped range is empty.
\<close>

theorem crop_image_clamps:
  assumes rect: "\<forall>row \<in> set images. length row = W"
    and shape: "height_of images = H" "width_of images = W"
    and finite: "\<not> overflows ext (real H * h0)" "\<not> overflows ext (real H * h1)"
      "\<not> overflows ext (real W * w0)" "\<not> overflows ext (real W * w1)"
  shows "crop_image ext images ((h0, h1), (w0, w1)) =
           Inr (map (\<lambda>r. map (\<lambda>c. images ! r ! c)
                       [slice_index W \<lfloor>rounded ext (real W * w0)\<rfloor>..<
                        slice_index W \<lceil>rounded ext (real W * w1)\<rceil>])
                  [slice_index H \<lfloor>rounded ext (real H * h0)\<rfloor>..<
                   slice_index H \<lceil>rounded ext (real H * h1)\<rceil>]) \<and>
         slice_index H \<lceil>rounded ext (real H * h1)\<rceil> \<le> H \<and>
         slice_index W \<lceil>rounded ext (real W * w1)\<rceil> \<le> W"
proof -
  have H: "length images = H"
    using shape(1) by (simp add: height_of_def)
  show ?thesis
    using crop_image_finite [of ext images h0 h1 w0 w1] finite sliced_rows [OF rect]
    by (simp add: shape H slice_index_le)
qed

theorem crop_image_clamps_witness:
  "list_all (\<lambda>row. length row = 2) [[[1], [2]], [[3], [4]], [[5], [6]], [[7], [8 :: pixel]]] \<and>
   crop_image example_detector [[[1], [2]], [[3], [4]], [[5], [6]], [[7], [8]]]
     ((1 / 2, 3), (- 1 / 4, 2)) = Inr [[[6]], [[8]]]"
  using crop_image_clamps
    [of "[[[1], [2]], [[3], [4]], [[5], [6]], [[7], [8]]]" 2 4 example_detector "1 / 2" 3 "- 1 / 4" 2]
  by (simp add: height_of_def width_of_def example_detector_def rounded_def slice_index_def
      eval_nat_numeral)

text \<open>
  With the inverted rows \<open>[3/4, 1/4]\<close> the call returns an array without rows, and with
  bounds beyond the image, \<open>[0, 2]\<close> and \<open>[0, 3/2]\<close>, it returns the whole array.
\<close>

theorem crop_image_error_counterexample:
  "crop_image example_detector [[[1], [2]], [[3], [4]], [[5], [6]], [[7], [8 :: pixel]]]
     ((3 / 4, 1 / 4), (0, 1)) = Inr [] \<and>
   crop_image example_detector [[[1], [2]], [[3], [4]], [[5], [6]], [[7], [8 :: pixel]]]
     ((0, 2), (0, 3 / 2)) = Inr [[[1], [2]], [[3], [4]], [[5], [6]], [[7], [8]]]"
  by (simp add: crop_image_def floor_index_def ceil_index_def height_of_def width_of_def
      example_detector_def rounded_def slice_def slice_index_def)

section \<open>The node\<close>

lemma final_state_simps [simp]:
  "final_state (Inl (e, s)) = s" "final_state (Inr (s, out)) = s"
  by (simp_all add: final_state_def)

lemma published_simps [simp]:
  "published (Inl (e, s)) = []" "published (Inr (s, out)) = out"
  by (simp_all add: published_def)

lemma raised_simps [simp]:
  "raised (Inl (e, s)) = Some e" "raised (Inr (s, out)) = None"
  by (simp_all add: raised_def)

lemma rounded_zero [simp]: "rounded ext 0 = 0"
  by (simp add: rounded_def)

text \<open>\<^verbatim>\<open>process_and_publish\<close> in terms of the notions above.\<close>

lemma process_and_publish_eq:
  "process_and_publish ext s =
     (if data s = [] then Inl (IndexError, s)
      else if \<not> stackable (data s) then Inl (ValueError, s)
      else (case crops ext s of
              Inl e \<Rightarrow> Inl (e, s)
            | Inr c \<Rightarrow>
                (case debug_images ext s c of
                   Inl e \<Rightarrow> Inl (e, s)
                 | Inr img_pub \<Rightarrow>
                     if t_init s = None then Inl (TypeError, classified ext s c)
                     else (case publish ext (classified ext s c) img_pub of
                             Inl e \<Rightarrow> Inl (e, classified ext s c)
                           | Inr d \<Rightarrow>
                               Inr (classified ext s c\<lparr>trigger := True, subscribed := True\<rparr>, [d])))))"
proof (cases "data s")
  case Nil
  then show ?thesis by (simp add: process_and_publish_def)
next
  case (Cons v0 vs)
  show ?thesis
  proof (cases "stackable (data s)")
    case False
    then show ?thesis
      using Cons by (simp add: process_and_publish_def stackable_def Let_def)
  next
    case True
    then show ?thesis
      using Cons
      by (auto simp: process_and_publish_def stackable_def Let_def crops_def window_volume_def
          debug_images_def debug_image_def classified_def region_signal_def sampling_time_def
          split: sum.splits option.splits)
  qed
qed

lemma publish_msg: "publish ext s img_pub = Inr d \<Longrightarrow> d = detections_msg s"
  by (auto simp: publish_def split: if_splits option.splits sum.splits)

lemma classified_fields [simp]:
  "data (classified ext s c) = data s" "parameters (classified ext s c) = parameters s"
  "t_init (classified ext s c) = t_init s" "subscribed (classified ext s c) = subscribed s"
  "left (classified ext s c) = ''UNKNOWN''" "trigger (classified ext s c) = trigger s"
  by (simp_all add: classified_def)

subsection \<open>What the callback and the frame source preserve\<close>

lemma process_and_publish_data [simp]:
  "data (final_state (process_and_publish ext s)) = data s"
  by (simp add: process_and_publish_eq split: sum.splits)

lemma process_and_publish_parameters [simp]:
  "parameters (final_state (process_and_publish ext s)) = parameters s"
  by (simp add: process_and_publish_eq split: sum.splits)

lemma process_and_publish_raised:
  "process_and_publish ext s = Inl (e, s') \<Longrightarrow> subscribed s' = subscribed s"
  by (auto simp: process_and_publish_eq split: sum.splits if_splits)

lemma process_and_publish_returned:
  assumes "process_and_publish ext s = Inr (s', out)"
  shows "trigger s'" "subscribed s'" "parameters s' = parameters s" "data s' = data s"
    "data s \<noteq> []" "t_init s \<noteq> None" "\<exists>d. out = [d] \<and> sd_left d = ''UNKNOWN''"
  using assms
  by (auto simp: process_and_publish_eq detections_msg_def split: sum.splits if_splits
      dest!: publish_msg)

lemma deliver_unsubscribed: "\<not> subscribed s \<Longrightarrow> deliver ext s ev = (s, [])"
  by (simp add: deliver_def)

lemma run_unsubscribed: "\<not> subscribed s \<Longrightarrow> run ext s evs = (s, [])"
  by (induction evs) (simp_all add: deliver_unsubscribed)

lemma deliver_armed:
  assumes "trigger s" and "subscribed s"
  shows "deliver ext s (m, now) =
           (if 0 < stamp m
            then if 0 < capture_time (parameters s)
                 then (case capture m of
                         Inl e \<Rightarrow> ((arm s m now)\<lparr>node_state := 1\<rparr>, [Inl e])
                       | Inr v \<Rightarrow> ((arm s m now)\<lparr>node_state := 1, data := [v]\<rparr>, []))
                 else (begin_processing (arm s m now), [Inl IndexError])
            else (arm s m now, []))"
  using assms
  by (simp add: deliver_def camera_callback_def arm_def process_and_publish_eq
      begin_processing_def Let_def split: sum.splits)

lemma camera_callback_parameters [simp]:
  "parameters (final_state (camera_callback ext s m now)) = parameters s"
  by (simp add: camera_callback_def Let_def arm_def begin_processing_def split: sum.splits)

lemma deliver_final_state:
  "fst (deliver ext s ev) =
     (if subscribed s then final_state (camera_callback ext s (fst ev) (snd ev)) else s)"
  by (auto simp: deliver_def final_state_def split: sum.splits)

lemma deliver_parameters [simp]: "parameters (fst (deliver ext s ev)) = parameters s"
  by (simp add: deliver_final_state)

lemma run_parameters [simp]: "parameters (fst (run ext s evs)) = parameters s"
  by (induction evs arbitrary: s) (simp_all add: split_def Let_def)

lemma camera_callback_data:
  "set (data (final_state (camera_callback ext s m now))) \<subseteq> set (data s) \<union> set (captured m)"
  by (auto simp: camera_callback_def Let_def arm_def begin_processing_def captured_def
      split: sum.splits)

lemma deliver_data:
  "set (data (fst (deliver ext s ev))) \<subseteq> set (data s) \<union> set (captured (fst ev))"
  using camera_callback_data [of ext s "fst ev" "snd ev"] by (auto simp: deliver_final_state)

lemma run_data:
  "set (data (fst (run ext s evs))) \<subseteq> set (data s) \<union> (\<Union>ev \<in> set evs. set (captured (fst ev)))"
proof (induction evs arbitrary: s)
  case Nil
  show ?case by simp
next
  case (Cons ev evs)
  have "set (data (fst (run ext (fst (deliver ext s ev)) evs)))
          \<subseteq> set (data (fst (deliver ext s ev))) \<union> (\<Union>ev \<in> set evs. set (captured (fst ev)))"
    by (rule Cons.IH)
  with deliver_data [of ext s ev] show ?case
    by (auto simp: split_def Let_def)
qed

lemma run_data_armed:
  assumes "trigger s" and "subscribed s" and "evs \<noteq> []"
  shows "set (data (fst (run ext s evs))) \<subseteq> (\<Union>ev \<in> set evs. set (captured (fst ev)))"
proof (cases evs)
  case Nil
  with assms show ?thesis by simp
next
  case (Cons ev rest)
  obtain m now where ev: "ev = (m, now)" by (cases ev)
  have "set (data (fst (deliver ext s ev))) \<subseteq> set (captured m)"
    using assms(1,2)
    by (auto simp: ev deliver_armed arm_def begin_processing_def captured_def split: sum.splits)
  with run_data [of ext "fst (deliver ext s ev)" rest] show ?thesis
    by (auto simp: Cons ev split_def Let_def)
qed

subsection \<open>The invariant of the callback\<close>

lemma process_and_publish_no_index_error:
  "data s \<noteq> [] \<Longrightarrow> raised (process_and_publish ext s) \<noteq> Some IndexError"
  by (auto simp: process_and_publish_eq crops_def crop_image_def floor_index_def ceil_index_def
      debug_images_def publish_def Let_def split: sum.splits option.splits if_splits)

lemma deliver_accepting:
  assumes "0 < capture_time (parameters s)" and "0 < stamp (fst ev)" and "gray (fst ev) \<noteq> None"
    and "accepting s"
  shows "accepting (fst (deliver ext s ev)) \<and> Inl IndexError \<notin> set (snd (deliver ext s ev))"
proof (cases "subscribed s")
  case False
  then show ?thesis using assms(4) by (simp add: deliver_unsubscribed)
next
  case sub: True
  obtain v where v: "capture (fst ev) = Inr v"
    using assms(3) by (auto simp: capture_def)
  show ?thesis
  proof (cases "trigger s")
    case True
    then show ?thesis
      using sub assms(1,2) deliver_armed [of s ext "fst ev" "snd ev"] v
      by (simp add: accepting_def window_open_def arm_def)
  next
    case False
    then have wopen: "window_open s" "data s \<noteq> []"
      using assms(4) sub by (auto simp: accepting_def)
    then have a: "arm s (fst ev) (snd ev) = s"
      using False by (simp add: arm_def window_open_def)
    show ?thesis
    proof (cases "rounded ext (stamp (fst ev) - first_timestamp s) < capture_time (parameters s)")
      case True
      then show ?thesis
        using sub wopen v
        by (simp add: deliver_def camera_callback_def a Let_def accepting_def window_open_def)
    next
      case late: False
      let ?r = "process_and_publish ext (begin_processing s)"
      have cb: "camera_callback ext s (fst ev) (snd ev) = ?r"
        using late wopen by (simp add: camera_callback_def a Let_def window_open_def)
      have ne: "raised ?r \<noteq> Some IndexError"
        using wopen(2) by (intro process_and_publish_no_index_error) (simp add: begin_processing_def)
      show ?thesis
      proof (cases ?r)
        case (Inl es)
        obtain e s' where es: "es = (e, s')" by (cases es)
        have "\<not> subscribed s'"
          using process_and_publish_raised [of ext "begin_processing s" e s'] Inl es
          by (simp add: begin_processing_def)
        then show ?thesis
          using sub ne Inl es by (simp add: deliver_def cb accepting_def)
      next
        case (Inr so)
        obtain s' out where so: "so = (s', out)" by (cases so)
        have "trigger s'"
          using process_and_publish_returned(1) [of ext "begin_processing s" s' out] Inr so by simp
        then show ?thesis
          using sub Inr so by (auto simp: deliver_def cb accepting_def)
      qed
    qed
  qed
qed

lemma run_accepting:
  assumes "0 < capture_time (parameters s)"
    and "\<forall>ev \<in> set evs. 0 < stamp (fst ev) \<and> gray (fst ev) \<noteq> None"
    and "accepting s"
  shows "accepting (fst (run ext s evs)) \<and> Inl IndexError \<notin> set (snd (run ext s evs))"
  using assms
proof (induction evs arbitrary: s)
  case Nil
  then show ?case by simp
next
  case (Cons ev evs)
  let ?s1 = "fst (deliver ext s ev)"
  have step: "accepting ?s1" "Inl IndexError \<notin> set (snd (deliver ext s ev))"
    using deliver_accepting [of s ev ext] Cons.prems by simp_all
  have "accepting (fst (run ext ?s1 evs)) \<and> Inl IndexError \<notin> set (snd (run ext ?s1 evs))"
    using Cons.prems step(1) by (intro Cons.IH) simp_all
  with step(2) show ?case
    by (simp add: split_def Let_def)
qed

lemma accepting_init: "accepting (init ps)"
  by (simp add: accepting_def init_def)

subsection \<open>Admission of frames to a window\<close>

text \<open>
  C3. While a capture window is open, with \<open>rel_time\<close> the float difference
  \<open>stamp - first_timestamp\<close> that the callback computes: a frame (a message whose image
  decodes) is appended to the buffer if and only if \<open>rel_time < capture_time\<close>; otherwise the
  callback starts processing on the buffer as it is, without the frame that triggered
  it. A message whose image does not decode raises in the capturing branch and is not
  appended.
\<close>

theorem capture_window_admission:
  assumes "s1 = arm s m now" and "window_open s1"
    and "rel_time = rounded ext (stamp m - first_timestamp s1)"
  shows "camera_callback ext s m now =
           (if rel_time < capture_time (parameters s1)
            then (case capture m of
                    Inl e \<Rightarrow> Inl (e, s1\<lparr>node_state := 1\<rparr>)
                  | Inr v \<Rightarrow> Inr (s1\<lparr>node_state := 1, data := data s1 @ [v]\<rparr>, []))
            else process_and_publish ext (begin_processing s1)) \<and>
         data (begin_processing s1) = data s1 \<and>
         (capture m = Inr v \<longrightarrow>
            (data (final_state (camera_callback ext s m now)) = data s1 @ [v]
               \<longleftrightarrow> rel_time < capture_time (parameters s1)))"
proof -
  have cb: "camera_callback ext s m now =
           (if rel_time < capture_time (parameters s1)
            then (case capture m of
                    Inl e \<Rightarrow> Inl (e, s1\<lparr>node_state := 1\<rparr>)
                  | Inr v \<Rightarrow> Inr (s1\<lparr>node_state := 1, data := data s1 @ [v]\<rparr>, []))
            else process_and_publish ext (begin_processing s1))"
    using assms(2) unfolding assms(1) assms(3)
    by (simp add: camera_callback_def Let_def window_open_def)
  have kept: "data (begin_processing s1) = data s1"
    by (simp add: begin_processing_def)
  have "data (final_state (camera_callback ext s m now)) =
          (if rel_time < capture_time (parameters s1) then data s1 @ [v] else data s1)"
    if "capture m = Inr v"
    using that by (simp add: cb kept)
  then show ?thesis
    using cb kept by simp
qed

lemma example_capture [simp]: "capture (example_message t) = Inr (example_frame t)"
  by (simp add: capture_def example_message_def example_frame_def)

lemma example_stamp [simp]: "stamp (example_message t) = t"
  by (simp add: example_message_def)

lemma example_crops:
  "crops example_detector (begin_processing example_capturing) =
     Inr ([[[0, 0]], [[235, 235]]], [[[255, 255], [0, 0]], [[245, 245], [235, 235]]],
          [[[255, 255], [0, 0]]])"
  by (simp add: crops_def crop_image_def floor_index_def ceil_index_def window_volume_def
      stack_def pixel_at_def height_of_def width_of_def example_detector_def rounded_def
      begin_processing_def example_capturing_def example_frame_def init_def example_parameters_def
      slice_def slice_index_def eval_nat_numeral)

lemma example_capturing_process:
  "process_and_publish example_detector (begin_processing example_capturing) =
     Inr ((begin_processing example_capturing)
            \<lparr>right := Some ''CAR_SIGNAL_A'', front := Some ''CAR_SIGNAL_A'',
             traffic_light := Some ''CAR_SIGNAL_A'', left := ''UNKNOWN'',
             trigger := True, subscribed := True\<rparr>,
          [\<lparr>sd_front = Some ''CAR_SIGNAL_A'', sd_right = Some ''CAR_SIGNAL_A'',
            sd_left = ''UNKNOWN'', sd_traffic_light_state = Some ''CAR_SIGNAL_A''\<rparr>])"
proof -
  have st: "stackable (data (begin_processing example_capturing))"
    "data (begin_processing example_capturing) \<noteq> []"
    "t_init (begin_processing example_capturing) \<noteq> None"
    "verbose (parameters (begin_processing example_capturing)) = 0"
    by (simp_all add: begin_processing_def example_capturing_def stackable_def broadcastable_def
        example_frame_def height_of_def width_of_def init_def example_parameters_def)
  have ts: "sampling_time example_detector (begin_processing example_capturing) = 1 / 2"
    by (simp add: sampling_time_def begin_processing_def example_capturing_def init_def
        example_parameters_def rounded_def example_detector_def)
  have sig: "region_signal example_detector (begin_processing example_capturing) img kind =
        ''CAR_SIGNAL_A''" for img kind
    by (simp add: region_signal_def ts) (simp add: example_detector_def)
  show ?thesis
    by (simp add: process_and_publish_eq st example_crops debug_images_def publish_def
        classified_def sig detections_msg_def)
qed

theorem capture_window_admission_witness:
  "window_open (arm example_capturing (example_message (7 / 4)) 2) \<and>
   data (final_state (camera_callback example_detector example_capturing (example_message (7 / 4)) 2)) =
     [example_frame 1, example_frame (3 / 2), example_frame (7 / 4)] \<and>
   data (final_state (camera_callback example_detector example_capturing (example_message 2) 2)) =
     [example_frame 1, example_frame (3 / 2)]"
proof -
  have a: "arm example_capturing m now = example_capturing" for m now
    by (simp add: arm_def example_capturing_def init_def)
  have w: "window_open example_capturing"
    by (simp add: window_open_def example_capturing_def init_def)
  have d: "data example_capturing = [example_frame 1, example_frame (3 / 2)]"
    by (simp add: example_capturing_def)
  have p: "capture_time (parameters example_capturing) = 1" "first_timestamp example_capturing = 1"
    by (simp_all add: example_capturing_def init_def example_parameters_def)
  have r: "rounded example_detector x = x" for x
    by (simp add: rounded_def example_detector_def)
  show ?thesis
    using capture_window_admission [of example_capturing example_capturing "example_message (7 / 4)" 2
        "3 / 4" example_detector "example_frame (7 / 4)"]
      capture_window_admission [of example_capturing example_capturing "example_message 2" 2
        1 example_detector "example_frame 2"]
    by (simp add: a w d p r begin_processing_def)
qed

subsection \<open>The left field\<close>

lemma deliver_published_left:
  assumes "Inr d \<in> set (snd (deliver ext s ev))"
  shows "sd_left d = ''UNKNOWN''"
proof -
  from assms have sub: "subscribed s"
    by (auto simp: deliver_def split: if_splits)
  from assms sub obtain s' out where
    cb: "camera_callback ext s (fst ev) (snd ev) = Inr (s', out)" and d: "d \<in> set out"
    by (auto simp: deliver_def split: sum.splits)
  from cb d have "process_and_publish ext (begin_processing (arm s (fst ev) (snd ev))) = Inr (s', out)"
    by (auto simp: camera_callback_def Let_def split: if_splits sum.splits)
  from process_and_publish_returned(7) [OF this] d show ?thesis
    by auto
qed

text \<open>
  C9. In every detection message that the node publishes, from any state and for any
  frames and any detector, the left field is the string "UNKNOWN".
\<close>

theorem left_always_unknown:
  assumes "Inr d \<in> set (snd (run ext s evs))"
  shows "sd_left d = ''UNKNOWN''"
  using assms
proof (induction evs arbitrary: s)
  case Nil
  then show ?case by simp
next
  case (Cons ev evs)
  then have "Inr d \<in> set (snd (deliver ext s ev)) \<or>
             Inr d \<in> set (snd (run ext (fst (deliver ext s ev)) evs))"
    by (auto simp: split_def Let_def)
  then show ?case
    using deliver_published_left Cons.IH by blast
qed

lemma example_rounded [simp]: "rounded example_detector x = x"
  by (simp add: rounded_def example_detector_def)

lemma example_reach:
  "run example_detector (init example_parameters)
     [(example_message 1, 1), (example_message (3 / 2), 2)] = (example_capturing, [])"
  by (simp add: deliver_def camera_callback_def arm_def init_def example_capturing_def
      example_parameters_def Let_def)

lemma example_deliver_late:
  "deliver example_detector example_capturing (example_message 2, 3) =
     ((begin_processing example_capturing)
            \<lparr>right := Some ''CAR_SIGNAL_A'', front := Some ''CAR_SIGNAL_A'',
             traffic_light := Some ''CAR_SIGNAL_A'', left := ''UNKNOWN'',
             trigger := True, subscribed := True\<rparr>,
      [Inr \<lparr>sd_front = Some ''CAR_SIGNAL_A'', sd_right = Some ''CAR_SIGNAL_A'',
            sd_left = ''UNKNOWN'', sd_traffic_light_state = Some ''CAR_SIGNAL_A''\<rparr>])"
proof -
  have "camera_callback example_detector example_capturing (example_message 2) 3 =
          process_and_publish example_detector (begin_processing example_capturing)"
    by (simp add: camera_callback_def arm_def init_def example_capturing_def
        example_parameters_def Let_def)
  moreover have "subscribed example_capturing"
    by (simp add: example_capturing_def init_def)
  ultimately show ?thesis
    by (simp add: deliver_def example_capturing_process)
qed

lemma example_run:
  "run example_detector (init example_parameters)
     [(example_message 1, 1), (example_message (3 / 2), 2), (example_message 2, 3)] =
   ((begin_processing example_capturing)
            \<lparr>right := Some ''CAR_SIGNAL_A'', front := Some ''CAR_SIGNAL_A'',
             traffic_light := Some ''CAR_SIGNAL_A'', left := ''UNKNOWN'',
             trigger := True, subscribed := True\<rparr>,
    [Inr \<lparr>sd_front = Some ''CAR_SIGNAL_A'', sd_right = Some ''CAR_SIGNAL_A'',
            sd_left = ''UNKNOWN'', sd_traffic_light_state = Some ''CAR_SIGNAL_A''\<rparr>])"
proof -
  have split: "run ext s [a, b, c] =
      (let (s2, o2) = run ext s [a, b]; (s3, o3) = deliver ext s2 c in (s3, o2 @ o3))"
    for ext :: "(volume, unit, unit) externals" and s a b c
    by (simp add: split_def Let_def)
  show ?thesis
    by (simp only: split example_reach example_deliver_late Let_def prod.case append_Nil)
qed

theorem left_always_unknown_witness:
  "Inr \<lparr>sd_front = Some ''CAR_SIGNAL_A'', sd_right = Some ''CAR_SIGNAL_A'',
        sd_left = ''UNKNOWN'', sd_traffic_light_state = Some ''CAR_SIGNAL_A''\<rparr>
     \<in> set (snd (run example_detector (init example_parameters)
          [(example_message 1, 1), (example_message (3 / 2), 2), (example_message 2, 3)])) \<and>
   sd_left \<lparr>sd_front = Some ''CAR_SIGNAL_A'', sd_right = Some ''CAR_SIGNAL_A'',
        sd_left = ''UNKNOWN'', sd_traffic_light_state = Some ''CAR_SIGNAL_A''\<rparr> = ''UNKNOWN''"
proof -
  have mem: "Inr \<lparr>sd_front = Some ''CAR_SIGNAL_A'', sd_right = Some ''CAR_SIGNAL_A'',
        sd_left = ''UNKNOWN'', sd_traffic_light_state = Some ''CAR_SIGNAL_A''\<rparr>
     \<in> set (snd (run example_detector (init example_parameters)
          [(example_message 1, 1), (example_message (3 / 2), 2), (example_message 2, 3)]))"
    unfolding example_run by simp
  from mem left_always_unknown [OF mem] show ?thesis
    by (rule conjI)
qed

subsection \<open>The buffer at the start of processing\<close>

lemma accepting_processing_nonempty:
  assumes "accepting s" and "subscribed s" and "window_open (arm s m now)"
    and "\<not> rounded ext (stamp m - first_timestamp (arm s m now)) < capture_time (parameters s)"
    and "0 < capture_time (parameters s)"
  shows "data (begin_processing (arm s m now)) \<noteq> []"
proof (cases "trigger s")
  case True
  then have "rounded ext (stamp m - first_timestamp (arm s m now)) = 0"
    by (simp add: arm_def)
  with assms(4,5) show ?thesis by simp
next
  case False
  then have "window_open s" "data s \<noteq> []"
    using assms(1,2) by (auto simp: accepting_def)
  then show ?thesis
    using False by (simp add: arm_def window_open_def begin_processing_def)
qed

text \<open>
  With \<^verbatim>\<open>capture_time = 1\<close>, a first message stamped 1 whose image does not decode
  arms the window and raises before the append; the next frame, stamped 3, is past
  \<^verbatim>\<open>capture_time\<close> and starts processing on the empty buffer, where \<^verbatim>\<open>self.data[0]\<close>
  raises IndexError.
\<close>

theorem empty_buffer_after_decode_error_counterexample:
  "0 < capture_time example_parameters \<and>
   0 < stamp (broken_message 1) \<and> 0 < stamp (example_message 3) \<and>
   snd (run example_detector (init example_parameters)
          [(broken_message 1, 1), (example_message 3, 3)]) = [Inl CvError, Inl IndexError]"
  by (simp add: deliver_def camera_callback_def arm_def init_def example_parameters_def
      broken_message_def capture_def Let_def process_and_publish_eq begin_processing_def)

text \<open>
  C10 (as amended). With a positive \<^verbatim>\<open>capture_time\<close> and frames with positive stamps
  whose images all decode, no delivery raises IndexError: whenever processing begins the
  buffer holds at least one frame, because a node that receives frames is armed or has
  an open window with a frame in it, and the frame that starts a window (relative time
  0) is appended.
\<close>

theorem window_never_empty_at_processing:
  assumes "0 < capture_time ps"
    and "\<forall>ev \<in> set evs. 0 < stamp (fst ev) \<and> gray (fst ev) \<noteq> None"
    and "s = fst (run ext (init ps) evs)"
  shows "Inl IndexError \<notin> set (snd (run ext (init ps) evs)) \<and>
         accepting s \<and>
         (subscribed s \<and> window_open (arm s m now) \<and>
          \<not> rounded ext (stamp m - first_timestamp (arm s m now)) < capture_time ps \<longrightarrow>
            data (begin_processing (arm s m now)) \<noteq> []) \<and>
         (0 < stamp m \<longrightarrow> data (fst (deliver ext (init ps) (m, now))) = captured m)"
proof -
  have ps: "parameters (init ps) = ps"
    by (simp add: init_def)
  then have inv: "accepting s \<and> Inl IndexError \<notin> set (snd (run ext (init ps) evs))"
    using assms accepting_init run_accepting [of "init ps" evs ext] by simp
  have "parameters s = ps"
    by (simp add: assms(3) ps)
  then have "data (begin_processing (arm s m now)) \<noteq> []"
    if "subscribed s" "window_open (arm s m now)"
      "\<not> rounded ext (stamp m - first_timestamp (arm s m now)) < capture_time ps"
    using accepting_processing_nonempty [of s m now ext] inv that assms(1) by simp
  moreover have "data (fst (deliver ext (init ps) (m, now))) = captured m" if "0 < stamp m"
    using that assms(1) deliver_armed [of "init ps" ext m now]
    by (simp add: init_def arm_def captured_def split: sum.splits)
  ultimately show ?thesis
    using inv by blast
qed

theorem window_never_empty_at_processing_witness:
  "0 < capture_time example_parameters \<and>
   list_all (\<lambda>ev. 0 < stamp (fst ev) \<and> gray (fst ev) \<noteq> None)
     [(example_message 1, 1), (example_message (3 / 2), 2), (example_message 2, 3)] \<and>
   Inl IndexError \<notin> set (snd (run example_detector (init example_parameters)
     [(example_message 1, 1), (example_message (3 / 2), 2), (example_message 2, 3)])) \<and>
   data (begin_processing (arm example_capturing (example_message 2) 3)) \<noteq> [] \<and>
   data (fst (deliver example_detector (init example_parameters) (example_message 1, 1))) =
     [example_frame 1]"
proof -
  have g: "gray (example_message t) = Some [[0, 255], [10, 20]]"
    "captured (example_message t) = [example_frame t]" for t
    by (simp_all add: example_message_def captured_def capture_def example_frame_def)
  have c: "0 < capture_time example_parameters"
    by (simp add: example_parameters_def)
  have b: "\<forall>ev \<in> set [(example_message 1, 1), (example_message (3 / 2), 2), (example_message 2, 3)].
             0 < stamp (fst ev) \<and> gray (fst ev) \<noteq> None"
    by (simp add: g)
  have "Inl IndexError \<notin> set (snd (run example_detector (init example_parameters)
     [(example_message 1, 1), (example_message (3 / 2), 2), (example_message 2, 3)])) \<and>
     data (fst (deliver example_detector (init example_parameters) (example_message 1, 1))) =
     [example_frame 1]"
    using window_never_empty_at_processing [OF c b refl, of example_detector "example_message 1" 1]
    by (simp add: g)
  moreover have "data (begin_processing (arm example_capturing (example_message 2) 3)) \<noteq> []"
    by (simp add: arm_def example_capturing_def init_def begin_processing_def)
  ultimately show ?thesis
    by (simp add: c g)
qed

subsection \<open>Frames during processing\<close>

lemma deliver_wedged:
  assumes "\<not> trigger s" and "\<not> capture_finished s" and "first_timestamp s \<le> 0"
  shows "deliver ext s ev = (s, [])"
  using assms by (simp add: deliver_def camera_callback_def arm_def Let_def)

lemma run_wedged:
  assumes "\<not> trigger s" and "\<not> capture_finished s" and "first_timestamp s \<le> 0"
  shows "run ext s evs = (s, [])"
  by (induction evs) (simp_all add: deliver_wedged [OF assms])

text \<open>
  C1. While the node processes a window (the subscription is unregistered), every
  delivered frame is dropped: the node's state, and with it the buffer, does not change.
  After the result is published the node is armed and subscribed again; the buffer of
  the following window holds only frames delivered after that, and a window that opens
  does so on the first frame delivered after the result and begins with that frame
  (with what capturing it adds to the buffer). A window opens on that frame exactly
  when its stamp and \<^verbatim>\<open>capture_time\<close> are positive; when none opens on it, none
  opens on any later frame.
\<close>

theorem frames_dropped_while_processing:
  "(\<not> subscribed p \<longrightarrow> run ext p dropped = (p, [])) \<and>
   \<not> subscribed (begin_processing s) \<and>
   (process_and_publish ext p = Inr (s', out) \<and> s1 = fst (deliver ext s' (m, now)) \<longrightarrow>
      trigger s' \<and> subscribed s' \<and>
      set (data (fst (run ext s' ((m, now) # later))))
        \<subseteq> (\<Union>ev \<in> set ((m, now) # later). set (captured (fst ev))) \<and>
      (window_open s1 \<longleftrightarrow> 0 < stamp m \<and> 0 < capture_time (parameters p)) \<and>
      (window_open s1 \<longrightarrow> data s1 = captured m \<and> first_timestamp s1 = stamp m) \<and>
      (\<not> window_open s1 \<longrightarrow> run ext s1 later = (s1, [])))"
proof -
  have after: "trigger s' \<and> subscribed s' \<and>
      set (data (fst (run ext s' ((m, now) # later))))
        \<subseteq> (\<Union>ev \<in> set ((m, now) # later). set (captured (fst ev))) \<and>
      (window_open s1 \<longleftrightarrow> 0 < stamp m \<and> 0 < capture_time (parameters p)) \<and>
      (window_open s1 \<longrightarrow> data s1 = captured m \<and> first_timestamp s1 = stamp m) \<and>
      (\<not> window_open s1 \<longrightarrow> run ext s1 later = (s1, []))"
    if ret: "process_and_publish ext p = Inr (s', out)" and s1: "s1 = fst (deliver ext s' (m, now))"
  proof -
    have armed: "trigger s'" "subscribed s'" and ps: "parameters s' = parameters p"
      using process_and_publish_returned(1-3) [OF ret] by simp_all
    have sub: "set (data (fst (run ext s' ((m, now) # later))))
        \<subseteq> (\<Union>ev \<in> set ((m, now) # later). set (captured (fst ev)))"
      using armed by (intro run_data_armed) simp_all
    note d = deliver_armed [OF armed, of ext m now]
    consider (opened) "0 < stamp m" "0 < capture_time (parameters p)"
      | (failed) "0 < stamp m" "\<not> 0 < capture_time (parameters p)"
      | (ignored) "\<not> 0 < stamp m"
      by blast
    then have "(window_open s1 \<longleftrightarrow> 0 < stamp m \<and> 0 < capture_time (parameters p)) \<and>
      (window_open s1 \<longrightarrow> data s1 = captured m \<and> first_timestamp s1 = stamp m) \<and>
      (\<not> window_open s1 \<longrightarrow> run ext s1 later = (s1, []))"
    proof cases
      case opened
      then show ?thesis
        using armed
        by (auto simp: s1 d ps window_open_def arm_def captured_def split: sum.splits)
    next
      case failed
      then have s1': "s1 = begin_processing (arm s' m now)"
        by (simp add: s1 d ps)
      have "\<not> subscribed s1" "\<not> window_open s1"
        by (simp_all add: s1' begin_processing_def window_open_def)
      then show ?thesis
        using failed by (simp add: run_unsubscribed)
    next
      case ignored
      then have s1': "s1 = arm s' m now"
        by (simp add: s1 d)
      have w: "\<not> trigger s1" "\<not> capture_finished s1" "first_timestamp s1 \<le> 0"
        using armed ignored by (simp_all add: s1' arm_def)
      then have "\<not> window_open s1"
        by (simp add: window_open_def)
      then show ?thesis
        using ignored run_wedged [OF w] by simp
    qed
    then show ?thesis
      using armed sub by simp
  qed
  show ?thesis
    using after by (simp add: run_unsubscribed begin_processing_def)
qed

theorem frames_dropped_while_processing_witness:
  "\<not> subscribed (begin_processing example_capturing) \<and>
   run example_detector (begin_processing example_capturing)
     [(example_message (5 / 2), 3), (example_message 3, 4)] =
     (begin_processing example_capturing, []) \<and>
   data (fst (deliver example_detector
          (final_state (process_and_publish example_detector (begin_processing example_capturing)))
          (example_message 4, 5))) = [example_frame 4]"
  using frames_dropped_while_processing
    [of "begin_processing example_capturing" example_detector
        "[(example_message (5 / 2), 3), (example_message 3, 4)]" example_capturing
        "final_state (process_and_publish example_detector (begin_processing example_capturing))"
        "published (process_and_publish example_detector (begin_processing example_capturing))"
        "fst (deliver example_detector
          (final_state (process_and_publish example_detector (begin_processing example_capturing)))
          (example_message 4, 5))"
        "example_message 4" 5 "[]"]
  by (simp add: example_capturing_process captured_def)
    (simp add: begin_processing_def example_capturing_def init_def example_parameters_def)

subsection \<open>The sampling interval\<close>

text \<open>
  C7. For every processed window, the sampling interval that \<^verbatim>\<open>process_and_publish\<close>
  passes to \<^verbatim>\<open>interpret_signal\<close>, for each of the three regions, is the float quotient
  of \<^verbatim>\<open>capture_time\<close> by the number of buffered frames, and the frame count passed is
  that number.
\<close>

theorem sampling_interval:
  assumes "process_and_publish ext s = Inr (s', out)"
    and "crops ext s = Inr (img_right, img_front, img_tl)"
    and "t_s = rounded ext (capture_time (parameters s) / real (length (data s)))"
  shows "data s \<noteq> [] \<and>
    right s' = Some (interpret_signal ext (find_blobs ext img_right ''car'') t_s (length (data s))) \<and>
    front s' = Some (interpret_signal ext (find_blobs ext img_front ''car'') t_s (length (data s))) \<and>
    traffic_light s' =
      Some (interpret_signal ext (find_blobs ext img_tl ''tl'') t_s (length (data s)))"
  using assms
  by (auto simp: process_and_publish_eq classified_def region_signal_def sampling_time_def
      split: if_splits sum.splits)

theorem sampling_interval_witness:
  "right (final_state (process_and_publish example_detector (begin_processing example_capturing))) =
     Some ''CAR_SIGNAL_A'' \<and>
   rounded example_detector
     (capture_time (parameters (begin_processing example_capturing)) /
      real (length (data (begin_processing example_capturing)))) = 1 / 2"
  using sampling_interval
    [of example_detector "begin_processing example_capturing"
        "final_state (process_and_publish example_detector (begin_processing example_capturing))"
        "published (process_and_publish example_detector (begin_processing example_capturing))"
        "[[[0, 0]], [[235, 235]]]" "[[[255, 255], [0, 0]], [[245, 245], [235, 235]]]"
        "[[[255, 255], [0, 0]]]" "1 / 2"]
  by (simp add: example_capturing_process example_crops)
    (simp add: begin_processing_def example_capturing_def init_def example_parameters_def)

subsection \<open>Determinism\<close>

lemma window_volume_cong: "data s1 = data s2 \<Longrightarrow> window_volume s1 = window_volume s2"
  by (cases "data s2") (simp_all add: window_volume_def)

lemma crops_cong:
  assumes "data s1 = data s2" and "parameters s1 = parameters s2"
  shows "crops ext s1 = crops ext s2"
  using assms window_volume_cong [of s1 s2] by (simp add: crops_def cong: sum.case_cong)

lemma debug_images_cong:
  "parameters s1 = parameters s2 \<Longrightarrow> debug_images ext s1 c = debug_images ext s2 c"
  by (simp add: debug_images_def debug_image_def cong: option.case_cong)

lemma region_signal_cong:
  assumes "data s1 = data s2" and "parameters s1 = parameters s2"
  shows "region_signal ext s1 img kind = region_signal ext s2 img kind"
  using assms by (simp add: region_signal_def sampling_time_def)

lemma publish_cong:
  assumes "parameters s1 = parameters s2" and "detections_msg s1 = detections_msg s2"
  shows "publish ext s1 img_pub = publish ext s2 img_pub"
  using assms by (auto simp: publish_def split: option.splits)

lemma publish_classified_cong:
  assumes "data s1 = data s2" and "parameters s1 = parameters s2"
  shows "publish ext (classified ext s1 c) img_pub = publish ext (classified ext s2 c) img_pub"
proof (rule publish_cong)
  show "parameters (classified ext s1 c) = parameters (classified ext s2 c)"
    using assms(2) by simp
  show "detections_msg (classified ext s1 c) = detections_msg (classified ext s2 c)"
    by (simp add: detections_msg_def classified_def region_signal_cong [OF assms])
qed

lemma classified_again:
  "classified ext (classified ext s c\<lparr>trigger := True, subscribed := True\<rparr>) c =
     classified ext s c\<lparr>trigger := True, subscribed := True\<rparr>"
proof -
  let ?s' = "classified ext s c\<lparr>trigger := True, subscribed := True\<rparr>"
  have "data ?s' = data s" "parameters ?s' = parameters s"
    by simp_all
  then have "region_signal ext ?s' img kind = region_signal ext s img kind" for img kind
    by (rule region_signal_cong)
  then show ?thesis
    by (simp add: classified_def)
qed

lemma publish_rearmed:
  "publish ext (s\<lparr>trigger := True, subscribed := True\<rparr>) img_pub = publish ext s img_pub"
  by (rule publish_cong) (simp_all add: detections_msg_def)

text \<open>
  C5. For a fixed window and fixed parameters, processing yields the same published
  detection message (the same symbols for right, front, traffic light and left) and the
  same exception, if any, whatever the other attributes of the node are; and processing
  the window a second time, from the state the first run left, returns the same
  message and the same state.
\<close>

theorem processing_deterministic:
  "(data s1 = data s2 \<and> parameters s1 = parameters s2 \<and> (t_init s1 = None) = (t_init s2 = None) \<longrightarrow>
      published (process_and_publish ext s1) = published (process_and_publish ext s2) \<and>
      raised (process_and_publish ext s1) = raised (process_and_publish ext s2)) \<and>
   (process_and_publish ext s = Inr (s', out) \<longrightarrow> process_and_publish ext s' = Inr (s', out))"
proof -
  have same: "published (process_and_publish ext s1) = published (process_and_publish ext s2) \<and>
      raised (process_and_publish ext s1) = raised (process_and_publish ext s2)"
    if eq: "data s1 = data s2" "parameters s1 = parameters s2" "(t_init s1 = None) = (t_init s2 = None)"
  proof -
    note c = crops_cong [OF eq(1,2), of ext]
    note g = debug_images_cong [OF eq(2), of ext]
    note p = publish_classified_cong [OF eq(1,2), of ext]
    show ?thesis
      using eq(3)
      by (auto simp: process_and_publish_eq eq(1) c g p split: sum.splits)
  qed
  have twice: "process_and_publish ext s' = Inr (s', out)"
    if ret: "process_and_publish ext s = Inr (s', out)"
  proof -
    from ret obtain c img_pub d where ok: "data s \<noteq> []" "stackable (data s)" "t_init s \<noteq> None"
      and c: "crops ext s = Inr c" and g: "debug_images ext s c = Inr img_pub"
      and p: "publish ext (classified ext s c) img_pub = Inr d"
      and s': "s' = classified ext s c\<lparr>trigger := True, subscribed := True\<rparr>"
      and out: "out = [d]"
      by (auto simp: process_and_publish_eq split: if_splits sum.splits)
    have same: "data s' = data s" "parameters s' = parameters s" "t_init s' = t_init s"
      by (simp_all add: s')
    have c': "crops ext s' = Inr c"
      using crops_cong [OF same(1,2), of ext] c by simp
    have g': "debug_images ext s' c = Inr img_pub"
      using debug_images_cong [OF same(2), of ext c] g by simp
    have cl: "classified ext s' c = s'"
      unfolding s' by (rule classified_again)
    have p': "publish ext s' img_pub = Inr d"
      unfolding s' by (simp add: publish_rearmed p)
    have "s'\<lparr>trigger := True, subscribed := True\<rparr> = s'"
      by (simp add: s')
    then show ?thesis
      using ok by (simp add: process_and_publish_eq same c' g' cl p' out)
  qed
  show ?thesis
    using same twice by simp
qed

theorem processing_deterministic_witness:
  "published (process_and_publish example_detector
      ((begin_processing example_capturing)\<lparr>right := Some ''CAR_SIGNAL_B'', node_state := 0\<rparr>)) =
   published (process_and_publish example_detector (begin_processing example_capturing)) \<and>
   process_and_publish example_detector
     (final_state (process_and_publish example_detector (begin_processing example_capturing))) =
   process_and_publish example_detector (begin_processing example_capturing)"
  using processing_deterministic
    [of "(begin_processing example_capturing)\<lparr>right := Some ''CAR_SIGNAL_B'', node_state := 0\<rparr>"
        "begin_processing example_capturing" example_detector
        "begin_processing example_capturing"
        "final_state (process_and_publish example_detector (begin_processing example_capturing))"
        "published (process_and_publish example_detector (begin_processing example_capturing))"]
  by (simp add: example_capturing_process)

subsection \<open>The guards of the specified classifier\<close>

lemma spec_interpret_signal_passes:
  assumes "2 \<le> num_img" and "2 * highest_frequency (LED_protocol ps) * capture_time ps < real num_img"
  shows "spec_interpret_signal ps classify blobs t_s num_img = classify blobs t_s num_img"
  using assms by (simp add: spec_interpret_signal_def)

lemma spec_detector_fields [simp]:
  "interpret_signal (spec_detector ps ext classify) = spec_interpret_signal ps classify"
  "float64 (spec_detector ps ext classify) = float64 ext"
  "overflows (spec_detector ps ext classify) = overflows ext"
  "find_blobs (spec_detector ps ext classify) = find_blobs ext"
  by (simp_all add: spec_detector_def)

lemma spec_region_unknown:
  assumes "0 < capture_time (parameters s)"
    and "real (length (data s)) / capture_time (parameters s)
           < 2 * highest_frequency (LED_protocol (parameters s))"
  shows "region_signal (spec_detector (parameters s) ext classify) s img kind = ''UNKNOWN''"
proof -
  have "real (length (data s))
          < 2 * highest_frequency (LED_protocol (parameters s)) * capture_time (parameters s)"
    using assms by (simp add: pos_divide_less_eq)
  then show ?thesis
    by (simp add: region_signal_def spec_interpret_signal_def)
qed

lemma publish_silent: "verbose (parameters s) \<le> 0 \<Longrightarrow> publish ext s img_pub = Inr (detections_msg s)"
  by (simp add: publish_def)

lemma debug_images_silent: "verbose (parameters s) \<le> 0 \<Longrightarrow> debug_images ext s c = Inr None"
  by (simp add: debug_images_def)

text \<open>
  C4. With the classifier of the specification and a positive \<^verbatim>\<open>capture_time\<close>: when
  the sampling rate \<open>num_frames / capture_time\<close> is below twice the highest protocol
  frequency, every result that processing produces is "UNKNOWN" for the right, front and
  traffic-light regions; and processing produces it for a stackable window of a node
  with \<^verbatim>\<open>t_init\<close> set, no debug images (\<^verbatim>\<open>verbose\<close> not positive) and finite crops.
\<close>

theorem nyquist_guard_unknown:
  assumes "0 < capture_time (parameters s)"
    and "real (length (data s)) / capture_time (parameters s)
           < 2 * highest_frequency (LED_protocol (parameters s))"
  shows "(process_and_publish (spec_detector (parameters s) ext classify) s = Inr (s', out) \<longrightarrow>
            out = [unknown_detection] \<and> right s' = Some ''UNKNOWN'' \<and>
            front s' = Some ''UNKNOWN'' \<and> traffic_light s' = Some ''UNKNOWN'') \<and>
         (stackable (data s) \<and> t_init s \<noteq> None \<and> verbose (parameters s) \<le> 0 \<and>
          crops (spec_detector (parameters s) ext classify) s = Inr c \<longrightarrow>
            published (process_and_publish (spec_detector (parameters s) ext classify) s) =
              [unknown_detection])"
proof -
  let ?ext = "spec_detector (parameters s) ext classify"
  have cl: "classified ?ext s c =
        s\<lparr>right := Some ''UNKNOWN'', front := Some ''UNKNOWN'',
          traffic_light := Some ''UNKNOWN'', left := ''UNKNOWN''\<rparr>" for c
    by (simp add: classified_def spec_region_unknown [OF assms])
  have msg: "detections_msg (classified ?ext s c) = unknown_detection" for c
    by (simp add: cl detections_msg_def unknown_detection_def)
  have first: "out = [unknown_detection] \<and> right s' = Some ''UNKNOWN'' \<and>
            front s' = Some ''UNKNOWN'' \<and> traffic_light s' = Some ''UNKNOWN''"
    if ret: "process_and_publish ?ext s = Inr (s', out)"
  proof -
    from ret obtain c img_pub d where p: "publish ?ext (classified ?ext s c) img_pub = Inr d"
      and s': "s' = classified ?ext s c\<lparr>trigger := True, subscribed := True\<rparr>"
      and out: "out = [d]"
      by (auto simp: process_and_publish_eq split: if_splits sum.splits)
    have "d = unknown_detection"
      using publish_msg [OF p] msg by simp
    then show ?thesis
      by (simp add: out s' cl)
  qed
  have second: "published (process_and_publish ?ext s) = [unknown_detection]"
    if "stackable (data s)" "t_init s \<noteq> None" "verbose (parameters s) \<le> 0" "crops ?ext s = Inr c"
  proof -
    have "data s \<noteq> []"
      using that(1) by (auto simp: stackable_def)
    then show ?thesis
      using that
      by (simp add: process_and_publish_eq debug_images_silent publish_silent msg)
  qed
  show ?thesis
    using first second by blast
qed

lemma spec_detector_rounded [simp]: "rounded (spec_detector ps ext classify) = rounded ext"
  by (rule ext) (simp add: rounded_def)

lemma spec_detector_index [simp]:
  "floor_index (spec_detector ps ext classify) = floor_index ext"
  "ceil_index (spec_detector ps ext classify) = ceil_index ext"
  by (rule ext, rule ext, simp add: floor_index_def ceil_index_def)+

lemma spec_detector_crop_image [simp]:
  "crop_image (spec_detector ps ext classify) = crop_image ext"
  by (rule ext, rule ext) (simp add: crop_image_def Let_def cong: sum.case_cong)

lemma spec_detector_crops [simp]: "crops (spec_detector ps ext classify) s = crops ext s"
  by (simp add: crops_def cong: sum.case_cong)

theorem nyquist_guard_unknown_witness:
  "0 < capture_time (parameters (begin_processing example_capturing)) \<and>
   real (length (data (begin_processing example_capturing))) /
     capture_time (parameters (begin_processing example_capturing))
     < 2 * highest_frequency (LED_protocol (parameters (begin_processing example_capturing))) \<and>
   published (process_and_publish
     (spec_detector (parameters (begin_processing example_capturing)) example_detector
        (\<lambda>blobs t_s num_img. ''SYMBOL_A''))
     (begin_processing example_capturing)) = [unknown_detection]"
proof -
  have vals: "capture_time (parameters (begin_processing example_capturing)) = 1"
    "length (data (begin_processing example_capturing)) = 2"
    "highest_frequency (LED_protocol (parameters (begin_processing example_capturing))) = 8"
    "t_init (begin_processing example_capturing) = Some 1"
    "verbose (parameters (begin_processing example_capturing)) = 0"
    by (simp_all add: begin_processing_def example_capturing_def init_def example_parameters_def
        highest_frequency_def)
  have st: "stackable (data (begin_processing example_capturing))"
    by (simp add: begin_processing_def example_capturing_def stackable_def broadcastable_def
        example_frame_def height_of_def width_of_def)
  show ?thesis
    using nyquist_guard_unknown
      [of "begin_processing example_capturing" example_detector "\<lambda>blobs t_s num_img. ''SYMBOL_A''"
          _ _ "([[[0, 0]], [[235, 235]]], [[[255, 255], [0, 0]], [[245, 245], [235, 235]]],
                [[[255, 255], [0, 0]]])"]
      st
    by (simp add: vals example_crops)
qed

text \<open>
  With \<^verbatim>\<open>capture_time = 0\<close> the first frame starts processing on an empty buffer (fewer
  than 2 frames), and \<^verbatim>\<open>self.data[0]\<close> raises IndexError.
\<close>

theorem empty_window_counterexample:
  "data (begin_processing (arm (init (example_parameters\<lparr>capture_time := 0\<rparr>)) (example_message 1) 1)) = [] \<and>
   camera_callback
     (spec_detector (example_parameters\<lparr>capture_time := 0\<rparr>) example_detector
        (\<lambda>blobs t_s num_img. ''SYMBOL_A''))
     (init (example_parameters\<lparr>capture_time := 0\<rparr>)) (example_message 1) 1 =
   Inl (IndexError,
        begin_processing (arm (init (example_parameters\<lparr>capture_time := 0\<rparr>)) (example_message 1) 1))"
  by (simp add: camera_callback_def arm_def init_def example_parameters_def
      process_and_publish_eq begin_processing_def)

text \<open>
  C8 (as amended). For every captured window that holds exactly one frame, in a node
  whose callback has recorded \<^verbatim>\<open>t_init\<close>, that draws no debug images (\<^verbatim>\<open>verbose\<close> not
  positive) and whose crops are finite, processing runs to completion without raising,
  and with the classifier of the specification the published result is "UNKNOWN" for
  every region.
\<close>

theorem single_frame_window_unknown:
  assumes "data s = [v]" and "t_init s \<noteq> None" and "verbose (parameters s) \<le> 0"
    and "crops (spec_detector (parameters s) ext classify) s = Inr c"
  shows "raised (process_and_publish (spec_detector (parameters s) ext classify) s) = None \<and>
         published (process_and_publish (spec_detector (parameters s) ext classify) s) =
           [unknown_detection]"
proof -
  let ?ext = "spec_detector (parameters s) ext classify"
  have "region_signal ?ext s img kind = ''UNKNOWN''" for img kind
    using assms(1) by (simp add: region_signal_def spec_interpret_signal_def)
  then have "detections_msg (classified ?ext s c) = unknown_detection"
    by (simp add: classified_def detections_msg_def unknown_detection_def)
  moreover have "stackable (data s)"
    using assms(1) by (simp add: stackable_def broadcastable_def)
  ultimately show ?thesis
    using assms
    by (simp add: process_and_publish_eq debug_images_silent publish_silent)
qed

theorem single_frame_window_unknown_witness:
  "published (process_and_publish
     (spec_detector example_parameters example_detector (\<lambda>blobs t_s num_img. ''SYMBOL_A''))
     ((begin_processing example_capturing)\<lparr>data := [example_frame 1]\<rparr>)) =
   [unknown_detection]"
proof -
  have c: "crops example_detector ((begin_processing example_capturing)\<lparr>data := [example_frame 1]\<rparr>) =
     Inr ([[[0]], [[235]]], [[[255], [0]], [[245], [235]]], [[[255], [0]]])"
    by (simp add: crops_def crop_image_def floor_index_def ceil_index_def window_volume_def
      stack_def pixel_at_def height_of_def width_of_def example_detector_def rounded_def
      begin_processing_def example_capturing_def example_frame_def init_def example_parameters_def
      slice_def slice_index_def eval_nat_numeral)
  show ?thesis
    using single_frame_window_unknown
      [of "(begin_processing example_capturing)\<lparr>data := [example_frame 1]\<rparr>"
          "example_frame 1" example_detector "\<lambda>blobs t_s num_img. ''SYMBOL_A''"
          "([[[0]], [[235]]], [[[255], [0]], [[245], [235]]], [[[255], [0]]])"]
    by (simp add: c) (simp add: begin_processing_def example_capturing_def init_def example_parameters_def)
qed

end
